theory Spec2Isabelle
  imports Main
begin

section \<open>Python strings and POSIX paths\<close>

text \<open>
  The build-script helpers of \<^verbatim>\<open>lib/cros_build_lib.py\<close> are Python 2 code over byte
  strings. A Python \<^verbatim>\<open>str\<close> is a \<^typ>\<open>string\<close>, Python's \<^verbatim>\<open>None\<close> where a string
  may stand is \<^term>\<open>None :: string option\<close>, and the string and \<^verbatim>\<open>os.path\<close>
  operations the module calls are written out as \<^verbatim>\<open>posixpath.py\<close> computes them.
\<close>

definition NL :: char where
  "NL = CHR 0x0A"

definition ESC :: char where
  "ESC = CHR 0x1B"

definition DQUOTE :: char where
  "DQUOTE = CHR 0x22"

definition startswith :: "string \<Rightarrow> string \<Rightarrow> bool" where
  \<comment> \<open>\<^verbatim>\<open>s.startswith(pre)\<close>\<close>
  "startswith s pre = (take (length pre) s = pre)"

definition endswith :: "string \<Rightarrow> string \<Rightarrow> bool" where
  \<comment> \<open>\<^verbatim>\<open>s.endswith(suf)\<close>\<close>
  "endswith s suf = (length suf \<le> length s \<and> drop (length s - length suf) s = suf)"

fun rfind :: "string \<Rightarrow> char \<Rightarrow> int" where
  \<comment> \<open>\<^verbatim>\<open>s.rfind(c)\<close>: the highest index of \<open>c\<close> in \<open>s\<close>, or \<open>-1\<close>\<close>
  "rfind [] c = - 1"
| "rfind (x # xs) c =
     (let r = rfind xs c in if 0 \<le> r then r + 1 else if x = c then 0 else - 1)"

definition rstrip :: "string \<Rightarrow> char \<Rightarrow> string" where
  \<comment> \<open>\<^verbatim>\<open>s.rstrip(c)\<close>: \<open>s\<close> without its trailing run of \<open>c\<close>\<close>
  "rstrip s c = rev (dropWhile (\<lambda>x. x = c) (rev s))"

fun split_on :: "char \<Rightarrow> string \<Rightarrow> string list" where
  \<comment> \<open>\<^verbatim>\<open>s.split(c)\<close> with an explicit separator: never an empty list\<close>
  "split_on c [] = [[]]"
| "split_on c (x # xs) =
     (if x = c then [] # split_on c xs
      else (case split_on c xs of w # ws \<Rightarrow> (x # w) # ws | [] \<Rightarrow> [[x]]))"

fun join_with :: "string \<Rightarrow> string list \<Rightarrow> string" where
  \<comment> \<open>\<^verbatim>\<open>sep.join(xs)\<close>\<close>
  "join_with sep [] = []"
| "join_with sep [x] = x"
| "join_with sep (x # y # ys) = x @ sep @ join_with sep (y # ys)"

function str_replace :: "string \<Rightarrow> string \<Rightarrow> string \<Rightarrow> string" where
  \<comment> \<open>\<^verbatim>\<open>s.replace(old, new)\<close>: every non-overlapping occurrence, left to right;
      an empty \<open>old\<close> matches before every character and at the end\<close>
  "str_replace s old new =
     (if old = [] then new @ concat (map (\<lambda>c. c # new) s)
      else if s = [] then []
      else if startswith s old then new @ str_replace (drop (length old) s) old new
      else hd s # str_replace (tl s) old new)"
  by pat_completeness auto
termination
  by (relation "measure (\<lambda>(s, old, new). length s)") auto

declare str_replace.simps [simp del]

definition isabs :: "string \<Rightarrow> bool" where
  \<comment> \<open>\<^verbatim>\<open>os.path.isabs\<close>\<close>
  "isabs s = startswith s ''/''"

definition join_step :: "string \<Rightarrow> string \<Rightarrow> string" where
  \<comment> \<open>one round of the loop of \<^verbatim>\<open>os.path.join(a, *p)\<close>\<close>
  "join_step path b =
     (if startswith b ''/'' then b
      else if path = [] \<or> endswith path ''/'' then path @ b
      else path @ ''/'' @ b)"

definition path_join :: "string \<Rightarrow> string list \<Rightarrow> string" where
  \<comment> \<open>\<^verbatim>\<open>os.path.join(a, *p)\<close> on strings\<close>
  "path_join a p = foldl join_step a p"

definition dirname :: "string \<Rightarrow> string" where
  \<comment> \<open>\<^verbatim>\<open>os.path.dirname\<close>\<close>
  "dirname p =
     (let i = rfind p CHR ''/'' + 1;
          head = take (nat i) p
      in if head \<noteq> [] \<and> head \<noteq> replicate (length head) CHR ''/''
         then rstrip head CHR ''/'' else head)"

definition one_leading_slash :: "string \<Rightarrow> bool" where
  \<comment> \<open>an absolute path that begins with exactly one slash\<close>
  "one_leading_slash p = (startswith p ''/'' \<and> \<not> startswith p ''//'')"

definition norm_step :: "nat \<Rightarrow> string list \<Rightarrow> string \<Rightarrow> string list" where
  \<comment> \<open>one round of the component loop of \<^verbatim>\<open>os.path.normpath\<close>\<close>
  "norm_step initial_slashes new_comps part =
     (if part = [] \<or> part = ''.'' then new_comps
      else if part \<noteq> ''..'' \<or> (initial_slashes = 0 \<and> new_comps = [])
              \<or> (new_comps \<noteq> [] \<and> last new_comps = ''..'')
      then new_comps @ [part]
      else if new_comps \<noteq> [] then butlast new_comps
      else new_comps)"

definition normpath :: "string \<Rightarrow> string" where
  \<comment> \<open>\<^verbatim>\<open>os.path.normpath\<close>\<close>
  "normpath path =
     (if path = [] then ''.''
      else
        let initial_slashes =
              (if startswith path ''/''
               then (if startswith path ''//'' \<and> \<not> startswith path ''///'' then 2 else 1)
               else (0 :: nat));
            comps = foldl (norm_step initial_slashes) [] (split_on CHR ''/'' path);
            joined = join_with ''/'' comps;
            path' = (if initial_slashes \<noteq> 0
                     then replicate initial_slashes CHR ''/'' @ joined else joined)
        in if path' = [] then ''.'' else path')"

section \<open>Console colours\<close>

fun digits :: "nat \<Rightarrow> string" where
  \<comment> \<open>the decimal digits of a natural number\<close>
  "digits n =
     (if n < 10 then [''0123456789'' ! n]
      else digits (n div 10) @ [''0123456789'' ! (n mod 10)])"

definition fmt_d :: "int \<Rightarrow> string" where
  \<comment> \<open>\<^verbatim>\<open>'%d' % i\<close>\<close>
  "fmt_d i = (if i < 0 then CHR ''-'' # digits (nat (- i)) else digits (nat i))"

definition BLACK :: int where "BLACK = 0"
definition RED :: int where "RED = 1"
definition GREEN :: int where "GREEN = 2"
definition YELLOW :: int where "YELLOW = 3"
definition BLUE :: int where "BLUE = 4"
definition MAGENTA :: int where "MAGENTA = 5"
definition CYAN :: int where "CYAN = 6"
definition WHITE :: int where "WHITE = 7"
definition BOLD :: int where "BOLD = - 1"

definition COLOR_START :: "int \<Rightarrow> string" where
  \<comment> \<open>\<^verbatim>\<open>'\033[1;%dm' % n\<close>\<close>
  "COLOR_START n = ESC # ''[1;'' @ fmt_d n @ ''m''"

definition BOLD_START :: string where
  "BOLD_START = ESC # ''[1m''"

definition RESET :: string where
  "RESET = ESC # ''[0m''"

record color =
  enabled :: bool

definition Color :: "color \<Rightarrow> int \<Rightarrow> string \<Rightarrow> string" where
  \<comment> \<open>the method \<^verbatim>\<open>Color.Color(self, color, text)\<close>\<close>
  "Color self c text =
     (if \<not> enabled self then text
      else (if c = BOLD then BOLD_START else COLOR_START (c + 30)) @ text @ RESET)"

section \<open>Logging\<close>

text \<open>
  The module computes \<^verbatim>\<open>_STDOUT_IS_TTY\<close> once, when it is imported, from the standard
  output stream; \<^verbatim>\<open>Die\<close>, \<^verbatim>\<open>Warning\<close> and \<^verbatim>\<open>Info\<close> read that value and print to the
  standard error stream. What the process's streams are at import time is a record; each
  logging function takes the module-level flag and returns the text it writes to
  \<^verbatim>\<open>sys.stderr\<close> (the \<^verbatim>\<open>print\<close> statement appends the newline).
\<close>

record streams =
  stdout_has_isatty :: bool
  stdout_isatty :: bool
  stderr_isatty :: bool

definition STDOUT_IS_TTY :: "streams \<Rightarrow> bool" where
  \<comment> \<open>\<^verbatim>\<open>hasattr(sys.stdout, 'isatty') and sys.stdout.isatty()\<close>\<close>
  "STDOUT_IS_TTY io = (stdout_has_isatty io \<and> stdout_isatty io)"

datatype exn =
    AttributeError
  | TypeError
  | OSError string
  | Exception string
  | SystemExit int

fun str_exn :: "exn \<Rightarrow> string" where
  \<comment> \<open>\<^verbatim>\<open>str(e)\<close> for the exceptions that carry a message\<close>
  "str_exn (OSError m) = m"
| "str_exn (Exception m) = m"
| "str_exn AttributeError = []"
| "str_exn TypeError = []"
| "str_exn (SystemExit n) = fmt_d n"

definition Die :: "bool \<Rightarrow> string \<Rightarrow> string \<times> exn" where
  \<comment> \<open>the line written to \<^verbatim>\<open>sys.stderr\<close>, then \<^verbatim>\<open>sys.exit(1)\<close>\<close>
  "Die tty message =
     (Color \<lparr>enabled = tty\<rparr> RED (NL # ''ERROR: '' @ message) @ [NL], SystemExit 1)"

definition Warning :: "bool \<Rightarrow> string \<Rightarrow> string" where
  "Warning tty message = Color \<lparr>enabled = tty\<rparr> YELLOW (NL # ''WARNING: '' @ message) @ [NL]"

definition Info :: "bool \<Rightarrow> string \<Rightarrow> string" where
  "Info tty message = Color \<lparr>enabled = tty\<rparr> BLUE (NL # ''INFO: '' @ message) @ [NL]"

section \<open>Running a command\<close>

text \<open>
  \<^verbatim>\<open>cmd\<close> is whatever the caller passes: a string or a list of strings. The operating
  system is a function from the \<^verbatim>\<open>subprocess.Popen\<close> call and the stdin payload to either
  the message of the exception that \<^verbatim>\<open>Popen\<close> or \<^verbatim>\<open>communicate\<close> raises, or the finished
  child: its exit status and what it wrote to its standard output and standard error.
  \<^verbatim>\<open>communicate\<close> hands back a stream's text only where the stream is a pipe, and
  \<^verbatim>\<open>None\<close> otherwise. The name of the calling script (\<^verbatim>\<open>GetCallerName()\<close>, read from the
  call stack) and Python's \<^verbatim>\<open>%r\<close> formatting of the command are parameters.
\<close>

datatype cmd = CmdStr string | CmdList "string list"

datatype pipe = PIPE

record popen_call =
  popen_args :: cmd
  popen_cwd :: "string option"
  popen_stdin :: "pipe option"
  popen_stdout :: "pipe option"
  popen_stderr :: "pipe option"

record child =
  returncode :: int
  child_stdout :: string
  child_stderr :: string

type_synonym spawn = "popen_call \<Rightarrow> string option \<Rightarrow> string + child"

record run_env =
  tty :: bool
  caller_name :: string
  repr :: "cmd \<Rightarrow> string"
  spawn :: spawn

record run_args =
  cmd :: cmd
  print_cmd :: bool
  error_ok :: bool
  error_message :: "string option"
  exit_code :: bool
  redirect_stdout :: bool
  redirect_stderr :: bool
  cwd :: "string option"
  input :: "string option"
  enter_chroot :: bool

definition default_args :: "cmd \<Rightarrow> run_args" where
  \<comment> \<open>the keyword defaults of \<^verbatim>\<open>RunCommand\<close>\<close>
  "default_args c =
     \<lparr>cmd = c, print_cmd = True, error_ok = False, error_message = None, exit_code = False,
      redirect_stdout = False, redirect_stderr = False, cwd = None, input = None,
      enter_chroot = False\<rparr>"

datatype retval = RetCode int | RetOutput "string option"

definition truthy :: "string option \<Rightarrow> bool" where
  \<comment> \<open>Python's truth value of a string or \<^verbatim>\<open>None\<close>\<close>
  "truthy v = (case v of None \<Rightarrow> False | Some s \<Rightarrow> s \<noteq> [])"

definition fmt_s :: "string option \<Rightarrow> string" where
  \<comment> \<open>\<^verbatim>\<open>'%s' % v\<close> for a string or \<^verbatim>\<open>None\<close>\<close>
  "fmt_s v = (case v of None \<Rightarrow> ''None'' | Some s \<Rightarrow> s)"

fun first_truthy :: "string option list \<Rightarrow> string" where
  \<comment> \<open>\<^verbatim>\<open>a or b or c or ''\<close>\<close>
  "first_truthy [] = []"
| "first_truthy (v # vs) =
     (case v of Some s \<Rightarrow> if s \<noteq> [] then s else first_truthy vs | None \<Rightarrow> first_truthy vs)"

definition communicate :: "popen_call \<Rightarrow> child \<Rightarrow> string option \<times> string option" where
  \<comment> \<open>\<^verbatim>\<open>proc.communicate(input)\<close>: \<^verbatim>\<open>(stdoutdata, stderrdata)\<close>\<close>
  "communicate call ch =
     (if popen_stdout call = Some PIPE then Some (child_stdout ch) else None,
      if popen_stderr call = Some PIPE then Some (child_stderr ch) else None)"

definition popen_request :: "run_args \<Rightarrow> exn + popen_call" where
  \<comment> \<open>lines 44 to 53: the arguments \<^verbatim>\<open>subprocess.Popen\<close> is called with. Prefixing the
      wrapper to a string \<^verbatim>\<open>cmd\<close> is \<^verbatim>\<open>list + str\<close>, a \<^verbatim>\<open>TypeError\<close>.\<close>
  "popen_request a =
     (let stdout = (if redirect_stdout a then Some PIPE else None);
          stderr = (if redirect_stderr a then Some PIPE else None);
          stdin = (if truthy (input a) then Some PIPE else None)
      in case (if enter_chroot a
               then (case cmd a of
                       CmdList xs \<Rightarrow> Inr (CmdList ([''./enter_chroot.sh'', ''--''] @ xs))
                     | CmdStr s \<Rightarrow> Inl TypeError)
               else Inr (cmd a)) of
           Inl e \<Rightarrow> Inl e
         | Inr c \<Rightarrow> Inr \<lparr>popen_args = c, popen_cwd = cwd a, popen_stdin = stdin,
                          popen_stdout = stdout, popen_stderr = stderr\<rparr>)"

definition try_body :: "run_env \<Rightarrow> run_args \<Rightarrow> popen_call \<Rightarrow> (exn + int option) \<times> string option" where
  \<comment> \<open>lines 61 to 69, the body of the \<^verbatim>\<open>try\<close>: what it does (raise, return the exit
      status, or fall through) and the value of the local \<^verbatim>\<open>output\<close> afterwards.
      \<open>OSError m\<close> stands for whatever \<^verbatim>\<open>Exception\<close> \<^verbatim>\<open>Popen\<close> or \<^verbatim>\<open>communicate\<close> raises,
      of any class (an \<^verbatim>\<open>IndexError\<close> for an empty list, say), with \<^verbatim>\<open>str(e)\<close> equal to
      \<open>m\<close>; the handler of line 70 treats them all alike.\<close>
  "try_body env a call =
     (case spawn env call (input a) of
        Inl m \<Rightarrow> (Inl (OSError m), Some [])
      | Inr ch \<Rightarrow>
          (let (output, error) = communicate call ch
           in if exit_code a then (Inr (Some (returncode ch)), output)
              else if \<not> error_ok a \<and> returncode ch \<noteq> 0
              then (Inl (Exception (''Command '' @ [DQUOTE] @ repr env (popen_args call) @ [DQUOTE]
                                     @ '' failed.'' @ [NL]
                                     @ first_truthy [error_message a, error, output])), output)
              else (Inr None, output)))"

definition RunCommand :: "run_env \<Rightarrow> run_args \<Rightarrow> (exn + retval) \<times> string list" where
  \<comment> \<open>the outcome (\<open>Inl\<close>: the exception that propagates) and the lines written to
      \<^verbatim>\<open>sys.stderr\<close>, in order\<close>
  "RunCommand env a =
     (case popen_request a of
        Inl e \<Rightarrow> (Inl e, [])
      | Inr call \<Rightarrow>
          (let printed =
                 (if print_cmd a
                  then [Info (tty env)
                          (''PROGRAM('' @ caller_name env @ '') -> RunCommand: ''
                           @ repr env (popen_args call) @ '' in dir '' @ fmt_s (cwd a))]
                  else [])
           in case try_body env a call of
                (Inr (Some status), output) \<Rightarrow> (Inr (RetCode status), printed)
              | (Inr None, output) \<Rightarrow> (Inr (RetOutput output), printed)
              | (Inl e, output) \<Rightarrow>
                  (if \<not> error_ok a then (Inl e, printed)
                   else (Inr (RetOutput output), printed @ [Warning (tty env) (str_exn e)]))))"

section \<open>Finding the repository and mapping a path into the chroot\<close>

text \<open>
  The file system and the process environment are a record: which paths
  \<^verbatim>\<open>os.path.isdir\<close> accepts, the current directory, and the value of \<^verbatim>\<open>USER\<close>.
  \<^verbatim>\<open>FindRepoDir\<close> loops until the path is \<^verbatim>\<open>'/'\<close>; a run that never gets there is the
  value \<^term>\<open>None\<close> of the outer option, a run that returns Python's \<^verbatim>\<open>None\<close> is
  \<^term>\<open>Some None\<close>.
\<close>

record os_env =
  isdir :: "string \<Rightarrow> bool"
  getcwd :: string
  getenv_USER :: "string option"

partial_function (option) FindRepoDir_loop :: "(string \<Rightarrow> bool) \<Rightarrow> string \<Rightarrow> string option option" where
  \<comment> \<open>lines 149 to 154\<close>
  "FindRepoDir_loop is_dir path =
     (if path \<noteq> ''/''
      then (if is_dir (path_join path [''.repo''])
            then Some (Some (path_join path [''.repo'']))
            else FindRepoDir_loop is_dir (dirname path))
      else Some None)"

declare FindRepoDir_loop.simps [code]

definition FindRepoDir :: "os_env \<Rightarrow> string option \<Rightarrow> string option option" where
  "FindRepoDir env path =
     FindRepoDir_loop (isdir env) (case path of None \<Rightarrow> getcwd env | Some p \<Rightarrow> p)"

definition abspath :: "os_env \<Rightarrow> string \<Rightarrow> string" where
  \<comment> \<open>\<^verbatim>\<open>os.path.abspath\<close>\<close>
  "abspath env path =
     normpath (if \<not> isabs path then path_join (getcwd env) [path] else path)"

definition outside_message :: string where
  "outside_message = ''Error: path is outside your src tree, cannot reinterpret.''"

definition ReinterpretPathForChroot :: "os_env \<Rightarrow> string \<Rightarrow> (exn + string) option" where
  \<comment> \<open>\<open>None\<close>: \<^verbatim>\<open>FindRepoDir\<close> never returns; \<open>Some (Inl e)\<close>: \<open>e\<close> is raised.
      \<^verbatim>\<open>os.path.join\<close> on \<^verbatim>\<open>None\<close> (no repository found, or \<^verbatim>\<open>USER\<close> unset) raises
      \<^verbatim>\<open>AttributeError\<close>.\<close>
  "ReinterpretPathForChroot env path =
     (case FindRepoDir env (Some path) of
        None \<Rightarrow> None
      | Some None \<Rightarrow> Some (Inl AttributeError)
      | Some (Some repo_dir) \<Rightarrow>
          (let root_path = path_join repo_dir [''..''];
               path_abs_path = abspath env path;
               root_abs_path = abspath env root_path;
               relative_path = drop 1 (str_replace path_abs_path root_abs_path [])
           in if relative_path = path_abs_path then Some (Inl (Exception outside_message))
              else (case getenv_USER env of
                      None \<Rightarrow> Some (Inl AttributeError)
                    | Some user \<Rightarrow>
                        Some (Inr (path_join ''/home'' [user, ''trunk'', relative_path])))))"

section \<open>Example environments\<close>

text \<open>
  Three small file systems without symbolic links, each given by the path strings that
  \<^verbatim>\<open>os.path.isdir\<close> accepts: one with a repository at \<^verbatim>\<open>/a\<close> and a marker directory
  at the root, one with no marker directory at all, and one in which \<^verbatim>\<open>/a/b\<close> and
  \<^verbatim>\<open>/a/.repo\<close> exist, so that \<^verbatim>\<open>/a/b/../.repo\<close> names the marker too.
\<close>

definition repo_example :: os_env where
  "repo_example = \<lparr>isdir = (\<lambda>p. p = ''/a/.repo'' \<or> p = ''/.repo''), getcwd = ''/a/b'', getenv_USER = Some ''u''\<rparr>"

definition bare_example :: os_env where
  "bare_example = \<lparr>isdir = (\<lambda>p. False), getcwd = ''/'', getenv_USER = Some ''u''\<rparr>"

definition dotdot_example :: os_env where
  "dotdot_example =
     \<lparr>isdir = (\<lambda>p. p = ''/a/.repo'' \<or> p = ''/a/b/../.repo''), getcwd = ''/'',
      getenv_USER = Some ''u''\<rparr>"

text \<open>
  A process whose standard output is a terminal while its standard error is redirected; a
  \<^verbatim>\<open>%r\<close> for strings of printable characters without quotes or backslashes; and an
  operating system that knows the programs \<^verbatim>\<open>echo\<close>, \<^verbatim>\<open>true\<close> and \<^verbatim>\<open>false\<close> and
  nothing else, under a caller named \<^verbatim>\<open>build.py\<close> with no terminal.
\<close>

definition redirected_stderr_example :: streams where
  "redirected_stderr_example =
     \<lparr>stdout_has_isatty = True, stdout_isatty = True, stderr_isatty = False\<rparr>"

fun simple_repr :: "cmd \<Rightarrow> string" where
  "simple_repr (CmdStr s) = [CHR 0x27] @ s @ [CHR 0x27]"
| "simple_repr (CmdList xs) =
     ''['' @ join_with '', '' (map (\<lambda>s. [CHR 0x27] @ s @ [CHR 0x27]) xs) @ '']''"

definition echo_example :: run_env where
  "echo_example =
     \<lparr>tty = False, caller_name = ''build.py'', repr = simple_repr,
      spawn = (\<lambda>call stdin_data.
         if popen_args call = CmdList [''echo'', ''hi'']
         then Inr \<lparr>returncode = 0, child_stdout = ''hi'' @ [NL], child_stderr = []\<rparr>
         else if popen_args call = CmdList [''true'']
         then Inr \<lparr>returncode = 0, child_stdout = [], child_stderr = []\<rparr>
         else if popen_args call = CmdList [''false'']
         then Inr \<lparr>returncode = 1, child_stdout = [], child_stderr = []\<rparr>
         else Inl ''[Errno 2] No such file or directory'')\<rparr>"

section \<open>Properties\<close>

subsection \<open>Strings and \<^verbatim>\<open>dirname\<close>\<close>

lemma startswith_slash: "startswith s ''/'' \<longleftrightarrow> (\<exists>t. s = CHR ''/'' # t)"
  by (cases s) (auto simp: startswith_def)

lemma startswith_slash2: "startswith s ''//'' \<longleftrightarrow> (\<exists>t. s = CHR ''/'' # CHR ''/'' # t)"
proof (cases s)
  case Nil
  then show ?thesis by (simp add: startswith_def)
next
  case (Cons a t)
  then show ?thesis by (cases t) (auto simp: startswith_def)
qed

lemma rfind_lower: "- 1 \<le> rfind s c"
  by (induction s) (auto simp: Let_def)

lemma rfind_index: "0 \<le> rfind s c \<Longrightarrow> nat (rfind s c) < length s \<and> s ! nat (rfind s c) = c"
proof (induction s)
  case Nil
  then show ?case by simp
next
  case (Cons x xs)
  show ?case
  proof (cases "0 \<le> rfind xs c")
    case True
    with Cons.IH have "nat (rfind xs c) < length xs" "xs ! nat (rfind xs c) = c" by auto
    moreover from True have "nat (rfind xs c + 1) = Suc (nat (rfind xs c))" by simp
    ultimately show ?thesis using True by (simp add: Let_def)
  next
    case False
    with Cons.prems show ?thesis by (auto simp: Let_def split: if_splits)
  qed
qed

lemma rfind_found: "c \<in> set s \<Longrightarrow> 0 \<le> rfind s c"
  by (induction s) (auto simp: Let_def)

lemma rfind_second: "0 \<le> rfind xs c \<Longrightarrow> 1 \<le> rfind (x # xs) c"
  by (simp add: Let_def)

lemma rstrip_snoc: "rstrip (s @ [x]) c = (if x = c then rstrip s c else s @ [x])"
  by (simp add: rstrip_def)

lemma rstrip_Nil: "rstrip [] c = []"
  by (simp add: rstrip_def)

lemma rstrip_length_le: "length (rstrip s c) \<le> length s"
  by (induction s rule: rev_induct) (auto simp: rstrip_snoc rstrip_Nil)

lemma rstrip_take: "rstrip s c = take (length (rstrip s c)) s"
proof (induction s rule: rev_induct)
  case Nil
  then show ?case by (simp add: rstrip_Nil)
next
  case (snoc x xs)
  then show ?case
    using rstrip_length_le [of xs c] by (auto simp: rstrip_snoc)
qed

lemma rstrip_shorter: "s \<noteq> [] \<Longrightarrow> last s = c \<Longrightarrow> length (rstrip s c) < length s"
  using rstrip_length_le [of "butlast s" c]
  by (cases s rule: rev_cases) (auto simp: rstrip_snoc)

lemma rstrip_append_keep:
  assumes "\<exists>x\<in>set b. x \<noteq> c"
  shows "rstrip (a @ b) c = a @ rstrip b c"
proof -
  from assms obtain x where "x \<in> set (rev b)" "\<not> x = c" by auto
  then have "dropWhile (\<lambda>x. x = c) (rev b @ rev a) = dropWhile (\<lambda>x. x = c) (rev b) @ rev a"
    by (rule dropWhile_append1)
  then show ?thesis by (simp add: rstrip_def)
qed

lemma rstrip_nonempty: "\<exists>x\<in>set s. x \<noteq> c \<Longrightarrow> rstrip s c \<noteq> []"
  by (induction s rule: rev_induct) (auto simp: rstrip_snoc)

lemma all_same: "s = replicate (length s) c \<longleftrightarrow> (\<forall>x\<in>set s. x = c)"
  by (induction s) auto

lemma one_leading_slash_iff:
  "one_leading_slash p \<longleftrightarrow> (\<exists>q. p = CHR ''/'' # q \<and> (q = [] \<or> hd q \<noteq> CHR ''/''))"
proof (cases p)
  case Nil
  then show ?thesis by (simp add: one_leading_slash_def startswith_slash)
next
  case (Cons a q)
  then show ?thesis
    by (cases q) (auto simp: one_leading_slash_def startswith_slash startswith_slash2)
qed

lemma one_leading_slash_take:
  assumes "one_leading_slash p" and "take n p \<noteq> []"
  shows "one_leading_slash (take n p)"
proof -
  from assms(1) obtain q where p: "p = CHR ''/'' # q" "q = [] \<or> hd q \<noteq> CHR ''/''"
    by (auto simp: one_leading_slash_iff)
  from assms(2) obtain m where n: "n = Suc m" by (cases n) auto
  have "take m q = [] \<or> hd (take m q) \<noteq> CHR ''/''"
    using p(2) by (cases m; cases q) auto
  then show ?thesis unfolding p n by (simp add: one_leading_slash_iff)
qed

lemma dirname_unfold:
  "dirname p =
     (let h = take (nat (rfind p CHR ''/'' + 1)) p
      in if \<exists>x\<in>set h. x \<noteq> CHR ''/'' then rstrip h CHR ''/'' else h)"
proof -
  have "\<And>h. (h \<noteq> [] \<and> h \<noteq> replicate (length h) CHR ''/'') = (\<exists>x\<in>set h. x \<noteq> CHR ''/'')"
    using all_same by fastforce
  then show ?thesis by (simp add: dirname_def Let_def)
qed

lemma head_last:
  assumes "take (nat (rfind p c + 1)) p \<noteq> []"
  shows "last (take (nat (rfind p c + 1)) p) = c"
proof -
  from assms have "0 \<le> rfind p c" using rfind_lower [of p c] by (cases "rfind p c = - 1") auto
  then have i: "nat (rfind p c) < length p" "p ! nat (rfind p c) = c"
    and n: "nat (rfind p c + 1) = Suc (nat (rfind p c))"
    using rfind_index [of p c] by auto
  show ?thesis unfolding n by (simp add: take_Suc_conv_app_nth i)
qed

lemma dirname_take: "\<exists>n. dirname p = take n p"
proof -
  let ?h = "take (nat (rfind p CHR ''/'' + 1)) p"
  have "rstrip ?h CHR ''/'' = take (length (rstrip ?h CHR ''/'')) ?h"
    by (rule rstrip_take)
  then have "\<exists>n. rstrip ?h CHR ''/'' = take n p"
    by (metis take_take)
  then show ?thesis
    by (auto simp: dirname_unfold Let_def)
qed

lemma dirname_nonempty:
  assumes "isabs p"
  shows "dirname p \<noteq> []"
proof -
  let ?h = "take (nat (rfind p CHR ''/'' + 1)) p"
  from assms obtain q where p: "p = CHR ''/'' # q" by (auto simp: isabs_def startswith_slash)
  then have "0 \<le> rfind p CHR ''/''" by (intro rfind_found) simp
  then have "?h \<noteq> []" using p by auto
  then show ?thesis
    using rstrip_nonempty [of ?h "CHR ''/''"] by (auto simp: dirname_unfold Let_def)
qed

lemma dirname_one_leading_slash:
  assumes "one_leading_slash p"
  shows "one_leading_slash (dirname p)"
proof -
  from assms have "isabs p" by (simp add: one_leading_slash_def isabs_def)
  then have "dirname p \<noteq> []" by (rule dirname_nonempty)
  moreover obtain n where "dirname p = take n p" using dirname_take by blast
  ultimately show ?thesis using one_leading_slash_take [OF assms, of n] by simp
qed

lemma dirname_shorter:
  assumes "one_leading_slash p" and "p \<noteq> ''/''"
  shows "length (dirname p) < length p"
proof -
  let ?h = "take (nat (rfind p CHR ''/'' + 1)) p"
  from assms obtain x q where p: "p = CHR ''/'' # x # q" and x: "x \<noteq> CHR ''/''"
    by (cases "tl p") (auto simp: one_leading_slash_iff)
  show ?thesis
  proof (cases "\<exists>x\<in>set ?h. x \<noteq> CHR ''/''")
    case True
    then have "?h \<noteq> []" by auto
    then have "last ?h = CHR ''/''" by (rule head_last)
    with \<open>?h \<noteq> []\<close> have "length (rstrip ?h CHR ''/'') < length ?h" by (rule rstrip_shorter)
    also have "\<dots> \<le> length p" by simp
    finally show ?thesis using True by (simp add: dirname_unfold Let_def)
  next
    case False
    have p1: "p ! 1 = x" and p2: "2 \<le> length p" unfolding p by simp_all
    have "length ?h \<le> 1"
    proof (rule ccontr)
      assume "\<not> length ?h \<le> 1"
      then have len: "1 < length ?h" by (simp only: not_le)
      then have mem: "?h ! 1 \<in> set ?h" by (rule nth_mem)
      from len have "1 < nat (rfind p CHR ''/'' + 1)" by simp
      then have "?h ! 1 = p ! 1" by (rule nth_take)
      with p1 x have "?h ! 1 \<noteq> CHR ''/''" by simp
      with mem False show False by blast
    qed
    moreover have "dirname p = ?h" using False by (simp add: dirname_unfold Let_def)
    ultimately have "length (dirname p) \<le> 1" by (simp only:)
    with p2 show ?thesis by linarith
  qed
qed

lemma dirname_not_one_leading_slash:
  assumes "\<not> one_leading_slash p"
  shows "\<not> one_leading_slash (dirname p)"
proof (cases "startswith p ''/''")
  case False
  obtain n where "dirname p = take n p" using dirname_take by blast
  with False have "\<not> startswith (dirname p) ''/''"
    by (cases p; cases n) (auto simp: startswith_slash)
  then show ?thesis by (simp add: one_leading_slash_def)
next
  case True
  let ?h = "take (nat (rfind p CHR ''/'' + 1)) p"
  from True assms obtain q where p: "p = CHR ''/'' # CHR ''/'' # q"
    by (auto simp: one_leading_slash_def startswith_slash2)
  have "0 \<le> rfind (CHR ''/'' # q) CHR ''/''" by (intro rfind_found) simp
  then have "1 \<le> rfind p CHR ''/''" unfolding p by (rule rfind_second)
  then have "nat (rfind p CHR ''/'' + 1) = Suc (Suc (nat (rfind p CHR ''/'' - 1)))" by arith
  then obtain k where "nat (rfind p CHR ''/'' + 1) = Suc (Suc k)" ..
  then have h: "?h = ''//'' @ take k q" using p by simp
  have "startswith (dirname p) ''//''"
  proof (cases "\<exists>x\<in>set ?h. x \<noteq> CHR ''/''")
    case True
    then have "\<exists>x\<in>set (take k q). x \<noteq> CHR ''/''" unfolding h by auto
    then have "rstrip ?h CHR ''/'' = ''//'' @ rstrip (take k q) CHR ''/''"
      unfolding h by (rule rstrip_append_keep)
    with True show ?thesis by (simp add: dirname_unfold Let_def startswith_slash2)
  next
    case False
    then show ?thesis using h by (simp add: dirname_unfold Let_def startswith_slash2)
  qed
  then show ?thesis by (simp add: one_leading_slash_def)
qed

lemma dirname_relative:
  assumes "\<not> isabs p"
  shows "\<not> isabs (dirname p)"
proof -
  obtain n where n: "dirname p = take n p" using dirname_take by blast
  show ?thesis
  proof
    assume "isabs (dirname p)"
    then obtain t where "take n p = CHR ''/'' # t" unfolding n by (auto simp: isabs_def startswith_slash)
    then have "\<exists>t. p = CHR ''/'' # t" by (cases p; cases n) auto
    with assms show False by (simp add: isabs_def startswith_slash)
  qed
qed

lemma dirname_relative_shorter:
  assumes "\<not> isabs p" and "p \<noteq> []"
  shows "length (dirname p) < length p"
proof -
  let ?h = "take (nat (rfind p CHR ''/'' + 1)) p"
  from assms obtain x q where p: "p = x # q" "x \<noteq> CHR ''/''"
    by (cases p) (auto simp: isabs_def startswith_slash)
  show ?thesis
  proof (cases "?h = []")
    case True
    have "dirname p = []" unfolding dirname_unfold Let_def True by simp
    with assms(2) show ?thesis by simp
  next
    case False
    then obtain m where "nat (rfind p CHR ''/'' + 1) = Suc m"
      by (cases "nat (rfind p CHR ''/'' + 1)") auto
    then have "?h = x # take m q" unfolding p by simp
    then have ne: "\<exists>x\<in>set ?h. x \<noteq> CHR ''/''" using p(2) by auto
    from False have "last ?h = CHR ''/''" by (rule head_last)
    with False have "length (rstrip ?h CHR ''/'') < length ?h" by (rule rstrip_shorter)
    also have "\<dots> \<le> length p" by simp
    finally show ?thesis using ne by (simp add: dirname_unfold Let_def)
  qed
qed

lemma one_leading_slash_root: "one_leading_slash ''/''"
  by (simp add: one_leading_slash_iff)

lemma funpow_dirname_not_one_leading_slash:
  "\<not> one_leading_slash p \<Longrightarrow> \<not> one_leading_slash ((dirname ^^ n) p)"
  by (induction n) (auto dest: dirname_not_one_leading_slash)

lemma FindRepoDir_loop_walk:
  assumes "FindRepoDir_loop is_dir p = Some res"
  shows "\<exists>n. (\<forall>k<n. (dirname ^^ k) p \<noteq> ''/''
                   \<and> \<not> is_dir (path_join ((dirname ^^ k) p) [''.repo'']))
           \<and> (case res of
                None \<Rightarrow> (dirname ^^ n) p = ''/''
              | Some r \<Rightarrow> (dirname ^^ n) p \<noteq> ''/''
                          \<and> r = path_join ((dirname ^^ n) p) [''.repo''] \<and> is_dir r)"
  using assms
proof (induction rule: FindRepoDir_loop.raw_induct [rotated 1, consumes 1])
  case (1 f is_dir path res)
  let ?found = "\<lambda>p n. (\<forall>k<n. (dirname ^^ k) p \<noteq> ''/''
                   \<and> \<not> is_dir (path_join ((dirname ^^ k) p) [''.repo'']))
           \<and> (case res of
                None \<Rightarrow> (dirname ^^ n) p = ''/''
              | Some r \<Rightarrow> (dirname ^^ n) p \<noteq> ''/''
                          \<and> r = path_join ((dirname ^^ n) p) [''.repo''] \<and> is_dir r)"
  show ?case
  proof (cases "path = ''/'' \<or> is_dir (path_join path [''.repo''])")
    case True
    with 1(2) have "?found path 0" by (auto split: if_splits)
    then show ?thesis by blast
  next
    case False
    with 1(2) have "f is_dir (dirname path) = Some res" by simp
    then obtain n where n: "?found (dirname path) n" using 1(1) by blast
    have "?found path (Suc n)"
    proof (intro conjI allI impI)
      fix k assume "k < Suc n"
      then show "(dirname ^^ k) path \<noteq> ''/''"
        using False n by (cases k) (auto simp: funpow_swap1)
    next
      fix k assume "k < Suc n"
      then show "\<not> is_dir (path_join ((dirname ^^ k) path) [''.repo''])"
        using False n by (cases k) (auto simp: funpow_swap1)
    next
      show "case res of
              None \<Rightarrow> (dirname ^^ Suc n) path = ''/''
            | Some r \<Rightarrow> (dirname ^^ Suc n) path \<noteq> ''/''
                        \<and> r = path_join ((dirname ^^ Suc n) path) [''.repo''] \<and> is_dir r"
        using n by (cases res) (simp_all add: funpow_swap1)
    qed
    then show ?thesis by blast
  qed
qed

lemma FindRepoDir_loop_terminates:
  "one_leading_slash p \<Longrightarrow> \<exists>res. FindRepoDir_loop is_dir p = Some res"
proof (induction p rule: length_induct)
  case (1 p)
  show ?case
  proof (cases "p = ''/'' \<or> is_dir (path_join p [''.repo''])")
    case True
    then show ?thesis by (subst FindRepoDir_loop.simps) auto
  next
    case False
    then have "length (dirname p) < length p" and "one_leading_slash (dirname p)"
      using "1.prems" by (simp_all add: dirname_shorter dirname_one_leading_slash)
    then obtain res where "FindRepoDir_loop is_dir (dirname p) = Some res"
      using "1.IH" by blast
    then show ?thesis using False by (subst FindRepoDir_loop.simps) auto
  qed
qed

lemma FindRepoDir_loop_diverges:
  assumes "\<not> one_leading_slash p"
    and "\<forall>k. \<not> is_dir (path_join ((dirname ^^ k) p) [''.repo''])"
  shows "FindRepoDir_loop is_dir p = None"
proof (rule ccontr)
  assume "FindRepoDir_loop is_dir p \<noteq> None"
  then obtain res where "FindRepoDir_loop is_dir p = Some res" by blast
  from FindRepoDir_loop_walk [OF this] obtain n where
    n: "case res of
          None \<Rightarrow> (dirname ^^ n) p = ''/''
        | Some r \<Rightarrow> (dirname ^^ n) p \<noteq> ''/''
                    \<and> r = path_join ((dirname ^^ n) p) [''.repo''] \<and> is_dir r"
    by blast
  show False
  proof (cases res)
    case None
    with n have "(dirname ^^ n) p = ''/''" by simp
    with funpow_dirname_not_one_leading_slash [OF assms(1), of n] show False
      by (simp add: one_leading_slash_root)
  next
    case (Some r)
    with n assms(2) show False by auto
  qed
qed

lemma dirname_root: "dirname ''/'' = ''/''"
  by code_simp

lemma dirname_empty: "dirname [] = []"
  by code_simp

lemma funpow_dirname_root: "(dirname ^^ m) ''/'' = ''/''"
  by (induction m) (simp_all add: dirname_root)

lemma funpow_dirname_relative:
  "\<not> isabs p \<Longrightarrow> length p \<le> n \<Longrightarrow> (dirname ^^ n) p = []"
proof (induction n arbitrary: p)
  case 0
  then show ?case by simp
next
  case (Suc n)
  have "\<not> isabs (dirname p)" using Suc.prems(1) by (rule dirname_relative)
  moreover have "length (dirname p) \<le> n"
  proof (cases "p = []")
    case True
    then show ?thesis by (simp add: dirname_empty)
  next
    case False
    with Suc.prems(1) have "length (dirname p) < length p" by (rule dirname_relative_shorter)
    with Suc.prems(2) show ?thesis by simp
  qed
  ultimately have "(dirname ^^ n) (dirname p) = []" by (rule Suc.IH)
  then show ?case by (simp add: funpow_swap1)
qed

lemma FindRepoDir_loop_first:
  assumes "one_leading_slash p"
  shows "\<exists>n. (\<forall>k<n. (dirname ^^ k) p \<noteq> ''/''
                   \<and> \<not> is_dir (path_join ((dirname ^^ k) p) [''.repo'']))
           \<and> (if (dirname ^^ n) p = ''/'' then FindRepoDir_loop is_dir p = Some None
               else is_dir (path_join ((dirname ^^ n) p) [''.repo''])
                    \<and> FindRepoDir_loop is_dir p
                        = Some (Some (path_join ((dirname ^^ n) p) [''.repo''])))"
proof -
  from FindRepoDir_loop_terminates [OF assms] obtain res
    where res: "FindRepoDir_loop is_dir p = Some res" by blast
  from FindRepoDir_loop_walk [OF res] obtain n where
    clear: "\<forall>k<n. (dirname ^^ k) p \<noteq> ''/''
                   \<and> \<not> is_dir (path_join ((dirname ^^ k) p) [''.repo''])"
    and last: "case res of
          None \<Rightarrow> (dirname ^^ n) p = ''/''
        | Some r \<Rightarrow> (dirname ^^ n) p \<noteq> ''/''
                    \<and> r = path_join ((dirname ^^ n) p) [''.repo''] \<and> is_dir r"
    by blast
  from last res have
    "if (dirname ^^ n) p = ''/'' then FindRepoDir_loop is_dir p = Some None
     else is_dir (path_join ((dirname ^^ n) p) [''.repo''])
          \<and> FindRepoDir_loop is_dir p = Some (Some (path_join ((dirname ^^ n) p) [''.repo'']))"
    by (cases res) auto
  with clear show ?thesis by blast
qed

lemma FindRepoDir_loop_None_iff:
  assumes "one_leading_slash p"
  shows "(FindRepoDir_loop is_dir p = Some None)
       = (\<forall>k. (dirname ^^ k) p \<noteq> ''/'' \<longrightarrow> \<not> is_dir (path_join ((dirname ^^ k) p) [''.repo'']))"
proof -
  from FindRepoDir_loop_first [OF assms, of is_dir] obtain n where
    clear: "\<forall>k<n. (dirname ^^ k) p \<noteq> ''/''
                   \<and> \<not> is_dir (path_join ((dirname ^^ k) p) [''.repo''])"
    and last: "if (dirname ^^ n) p = ''/'' then FindRepoDir_loop is_dir p = Some None
     else is_dir (path_join ((dirname ^^ n) p) [''.repo''])
          \<and> FindRepoDir_loop is_dir p = Some (Some (path_join ((dirname ^^ n) p) [''.repo'']))"
    by blast
  show ?thesis
  proof (cases "(dirname ^^ n) p = ''/''")
    case True
    have "\<not> is_dir (path_join ((dirname ^^ k) p) [''.repo''])" if "(dirname ^^ k) p \<noteq> ''/''" for k
    proof (cases "k < n")
      case True
      with clear show ?thesis by simp
    next
      case False
      then have "k = (k - n) + n" by simp
      then have "(dirname ^^ k) p = (dirname ^^ (k - n)) ((dirname ^^ n) p)"
        by (metis funpow_add o_apply)
      with True that show ?thesis by (simp add: funpow_dirname_root)
    qed
    with True last show ?thesis by simp
  next
    case False
    with last show ?thesis by auto
  qed
qed

subsection \<open>Console colours\<close>

lemma fmt_d_thirties:
  assumes "0 \<le> c" and "c \<le> 7"
  shows "fmt_d (c + 30) = [CHR ''3'', ''01234567'' ! nat c]"
proof -
  from assms have "c = 0 \<or> c = 1 \<or> c = 2 \<or> c = 3 \<or> c = 4 \<or> c = 5 \<or> c = 6 \<or> c = 7"
    by arith
  then show ?thesis
    by (elim disjE) (simp_all add: fmt_d_def)
qed

text \<open>
  C7. With colours enabled, each of the eight base colours \<open>c\<close> (indices 0 to 7) wraps
  the text in ESC \<open>[1;3c m\<close> and the reset sequence ESC \<open>[0m\<close>, \<open>BOLD\<close> wraps it in
  ESC \<open>[1m\<close> and the reset sequence, and a disabled colour object returns the text
  unchanged for every colour value, \<open>BOLD\<close> included.
\<close>

theorem Color_escape_sequences:
  assumes "0 \<le> c" and "c \<le> 7"
  shows "Color \<lparr>enabled = True\<rparr> c text
           = CHR 0x1B # ''[1;3'' @ [''01234567'' ! nat c] @ ''m'' @ text @ CHR 0x1B # ''[0m''
       \<and> Color \<lparr>enabled = True\<rparr> BOLD text = CHR 0x1B # ''[1m'' @ text @ CHR 0x1B # ''[0m''
       \<and> Color \<lparr>enabled = False\<rparr> k text = text
       \<and> Color \<lparr>enabled = False\<rparr> BOLD text = text"
proof -
  have "c \<noteq> BOLD" using assms by (simp add: BOLD_def)
  then show ?thesis
    using fmt_d_thirties [OF assms]
    by (simp add: Color_def COLOR_START_def BOLD_START_def RESET_def ESC_def)
qed

theorem Color_escape_sequences_witness:
  "(0 :: int) \<le> 1 \<and> (1 :: int) \<le> 7
   \<and> Color \<lparr>enabled = True\<rparr> RED ''hi'' = CHR 0x1B # ''[1;31mhi'' @ CHR 0x1B # ''[0m''
   \<and> Color \<lparr>enabled = True\<rparr> BOLD ''hi'' = CHR 0x1B # ''[1mhi'' @ CHR 0x1B # ''[0m''
   \<and> Color \<lparr>enabled = False\<rparr> RED ''hi'' = ''hi''"
  using Color_escape_sequences [of 1 "''hi''" 1] by (simp add: RED_def)

subsection \<open>\<^verbatim>\<open>FindRepoDir\<close>\<close>

text \<open>
  C1, as the code has it. \<^verbatim>\<open>FindRepoDir\<close> walks the starting path \<open>p\<close>, \<open>dirname p\<close>,
  \<open>dirname (dirname p)\<close>, ... Whenever it returns, it has stopped at the first position
  \<open>n\<close> of the walk that is \<^verbatim>\<open>'/'\<close> or whose \<^verbatim>\<open>.repo\<close> entry is a directory: at \<^verbatim>\<open>'/'\<close>
  the result is \<^verbatim>\<open>None\<close>, otherwise it is the path of the marker directory itself,
  \<^verbatim>\<open>os.path.join(d, '.repo')\<close> for the nearest such \<open>d\<close> (the starting path included,
  \<^verbatim>\<open>'/'\<close> excluded). From a starting path that begins with exactly one slash it does
  return, and the result is \<^verbatim>\<open>None\<close> exactly when no directory of the walk other than
  \<^verbatim>\<open>'/'\<close> holds the marker.
\<close>

theorem FindRepoDir_nearest_marker:
  "(FindRepoDir env (Some p) = Some res \<longrightarrow>
      (\<exists>n. (\<forall>k<n. (dirname ^^ k) p \<noteq> ''/''
                        \<and> \<not> isdir env (path_join ((dirname ^^ k) p) [''.repo'']))
                \<and> (case res of
                     None \<Rightarrow> (dirname ^^ n) p = ''/''
                   | Some r \<Rightarrow> (dirname ^^ n) p \<noteq> ''/''
                               \<and> r = path_join ((dirname ^^ n) p) [''.repo'']
                               \<and> isdir env r)))
   \<and> (one_leading_slash p \<longrightarrow>
        (FindRepoDir env (Some p) \<noteq> None
           \<and> (FindRepoDir env (Some p) = Some None)
               = (\<forall>k. (dirname ^^ k) p \<noteq> ''/''
                       \<longrightarrow> \<not> isdir env (path_join ((dirname ^^ k) p) [''.repo'']))))"
proof (intro conjI impI)
  assume "FindRepoDir env (Some p) = Some res"
  then have "FindRepoDir_loop (isdir env) p = Some res" by (simp add: FindRepoDir_def)
  then show "(\<exists>n. (\<forall>k<n. (dirname ^^ k) p \<noteq> ''/''
                        \<and> \<not> isdir env (path_join ((dirname ^^ k) p) [''.repo'']))
                \<and> (case res of
                     None \<Rightarrow> (dirname ^^ n) p = ''/''
                   | Some r \<Rightarrow> (dirname ^^ n) p \<noteq> ''/''
                               \<and> r = path_join ((dirname ^^ n) p) [''.repo'']
                               \<and> isdir env r))"
    by (rule FindRepoDir_loop_walk)
next
  assume "one_leading_slash p"
  then show "FindRepoDir env (Some p) \<noteq> None"
    using FindRepoDir_loop_terminates [of p "isdir env"] by (auto simp: FindRepoDir_def)
next
  assume "one_leading_slash p"
  then show "(FindRepoDir env (Some p) = Some None)
               = (\<forall>k. (dirname ^^ k) p \<noteq> ''/''
                       \<longrightarrow> \<not> isdir env (path_join ((dirname ^^ k) p) [''.repo'']))"
    using FindRepoDir_loop_None_iff [of p "isdir env"] by (simp add: FindRepoDir_def)
qed

theorem FindRepoDir_nearest_marker_witness:
  "FindRepoDir repo_example (Some ''/a/b/c'') = Some (Some ''/a/.repo'')
   \<and> one_leading_slash ''/a/b/c''
   \<and> (\<exists>n. (\<forall>k<n. (dirname ^^ k) ''/a/b/c'' \<noteq> ''/''
                        \<and> \<not> isdir repo_example (path_join ((dirname ^^ k) ''/a/b/c'') [''.repo'']))
                \<and> (case (Some ''/a/.repo'') of
                     None \<Rightarrow> (dirname ^^ n) ''/a/b/c'' = ''/''
                   | Some r \<Rightarrow> (dirname ^^ n) ''/a/b/c'' \<noteq> ''/''
                               \<and> r = path_join ((dirname ^^ n) ''/a/b/c'') [''.repo'']
                               \<and> isdir repo_example r))
   \<and> (FindRepoDir repo_example (Some ''/a/b/c'') \<noteq> None
           \<and> (FindRepoDir repo_example (Some ''/a/b/c'') = Some None)
               = (\<forall>k. (dirname ^^ k) ''/a/b/c'' \<noteq> ''/''
                       \<longrightarrow> \<not> isdir repo_example (path_join ((dirname ^^ k) ''/a/b/c'') [''.repo''])))"
proof -
  have v: "FindRepoDir repo_example (Some ''/a/b/c'') = Some (Some ''/a/.repo'')" by code_simp
  have h: "one_leading_slash ''/a/b/c''" by code_simp
  note t = FindRepoDir_nearest_marker [of repo_example "''/a/b/c''" "Some ''/a/.repo''"]
  show ?thesis
    by (rule conjI [OF v conjI [OF h conjI [OF t [THEN conjunct1, rule_format, OF v]
          t [THEN conjunct2, rule_format, OF h]]]])
qed

text \<open>
  C1 as stated fails: with the marker in \<^verbatim>\<open>/a\<close> and none in \<^verbatim>\<open>/a/b\<close>, the call
  \<^verbatim>\<open>FindRepoDir('/a/b')\<close> returns \<^verbatim>\<open>'/a/.repo'\<close>, the marker directory, and not the
  ancestor \<^verbatim>\<open>'/a'\<close> that contains it.
\<close>

theorem FindRepoDir_returns_ancestor_counterexample:
  "\<not> isdir repo_example (path_join ''/a/b'' [''.repo''])
   \<and> isdir repo_example (path_join ''/a'' [''.repo''])
   \<and> FindRepoDir repo_example (Some ''/a/b'') = Some (Some ''/a/.repo'')
   \<and> FindRepoDir repo_example (Some ''/a/b'') \<noteq> Some (Some ''/a'')"
  by code_simp

text \<open>
  C9, as the code has it. On a path that begins with exactly one slash the loop
  terminates: the parent of such a path is such a path again, and strictly shorter unless
  the path is \<^verbatim>\<open>'/'\<close>, where the loop exits. On any other path (a relative one, or one
  that begins with two or more slashes) the loop never terminates when no step of the
  walk finds the marker: the walk of a relative path reaches the empty string, which is
  its own parent.
\<close>

theorem FindRepoDir_termination:
  "(one_leading_slash p \<longrightarrow>
      FindRepoDir env (Some p) \<noteq> None \<and> one_leading_slash (dirname p)
      \<and> (p \<noteq> ''/'' \<longrightarrow> length (dirname p) < length p))
   \<and> (\<not> one_leading_slash p
        \<and> (\<forall>k. \<not> isdir env (path_join ((dirname ^^ k) p) [''.repo''])) \<longrightarrow>
      FindRepoDir env (Some p) = None)
   \<and> (\<not> isabs p \<longrightarrow> (dirname ^^ length p) p = [] \<and> dirname [] = [])"
proof (intro conjI impI)
  assume "one_leading_slash p"
  then show "FindRepoDir env (Some p) \<noteq> None"
    using FindRepoDir_loop_terminates [of p "isdir env"] by (auto simp: FindRepoDir_def)
next
  assume "one_leading_slash p"
  then show "one_leading_slash (dirname p)" by (rule dirname_one_leading_slash)
next
  assume "one_leading_slash p" and "p \<noteq> ''/''"
  then show "length (dirname p) < length p" by (rule dirname_shorter)
next
  assume "\<not> one_leading_slash p
        \<and> (\<forall>k. \<not> isdir env (path_join ((dirname ^^ k) p) [''.repo'']))"
  then show "FindRepoDir env (Some p) = None"
    using FindRepoDir_loop_diverges [of p "isdir env"] by (simp add: FindRepoDir_def)
next
  assume "\<not> isabs p"
  then show "(dirname ^^ length p) p = []" by (rule funpow_dirname_relative) simp
next
  show "dirname [] = []" by (rule dirname_empty)
qed

theorem FindRepoDir_termination_witness:
  "one_leading_slash ''/a/b'' \<and> ''/a/b'' \<noteq> ''/''
   \<and> FindRepoDir bare_example (Some ''/a/b'') \<noteq> None
   \<and> length (dirname ''/a/b'') < length ''/a/b''
   \<and> \<not> one_leading_slash ''a/b'' \<and> \<not> isabs ''a/b''
   \<and> (\<forall>k. \<not> isdir bare_example (path_join ((dirname ^^ k) ''a/b'') [''.repo'']))
   \<and> FindRepoDir bare_example (Some ''a/b'') = None
   \<and> (dirname ^^ length ''a/b'') ''a/b'' = []"
proof -
  have a: "one_leading_slash ''/a/b''" "''/a/b'' \<noteq> ''/''" by code_simp+
  have r: "\<not> one_leading_slash ''a/b''" "\<not> isabs ''a/b''" by code_simp+
  have m: "\<forall>k. \<not> isdir bare_example (path_join ((dirname ^^ k) ''a/b'') [''.repo''])"
    by (simp add: bare_example_def)
  from FindRepoDir_termination [of "''/a/b''" bare_example]
    FindRepoDir_termination [of "''a/b''" bare_example] a r m
  show ?thesis by blast
qed

text \<open>
  C9 as stated fails: \<^verbatim>\<open>'//'\<close> is an absolute path and its own parent, and it is not
  \<^verbatim>\<open>'/'\<close>; with no marker directory the loop runs forever.
\<close>

theorem FindRepoDir_double_slash_counterexample:
  "isabs ''//'' \<and> dirname ''//'' = ''//''
   \<and> FindRepoDir bare_example (Some ''//'') = None"
proof -
  have "\<not> one_leading_slash ''//''" by code_simp
  moreover have "\<forall>k. \<not> isdir bare_example (path_join ((dirname ^^ k) ''//'') [''.repo''])"
    by (simp add: bare_example_def)
  ultimately have "FindRepoDir_loop (isdir bare_example) ''//'' = None"
    by (rule FindRepoDir_loop_diverges)
  moreover have "isabs ''//''" and "dirname ''//'' = ''//''" by code_simp+
  ultimately show ?thesis by (simp add: FindRepoDir_def)
qed

subsection \<open>\<^verbatim>\<open>ReinterpretPathForChroot\<close>\<close>

lemma str_replace_empty_old: "str_replace s [] new = new @ concat (map (\<lambda>c. c # new) s)"
  by (subst str_replace.simps) simp

lemma str_replace_Nil: "old \<noteq> [] \<Longrightarrow> str_replace [] old new = []"
  by (subst str_replace.simps) simp

lemma str_replace_match:
  "old \<noteq> [] \<Longrightarrow> s \<noteq> [] \<Longrightarrow> startswith s old \<Longrightarrow>
   str_replace s old new = new @ str_replace (drop (length old) s) old new"
  by (subst str_replace.simps) simp

lemma str_replace_nomatch:
  "old \<noteq> [] \<Longrightarrow> \<not> startswith (x # xs) old \<Longrightarrow>
   str_replace (x # xs) old new = x # str_replace xs old new"
  by (subst str_replace.simps) simp

lemma str_replace_length: "length (str_replace s old []) \<le> length s"
proof (induction s old "[] :: string" rule: str_replace.induct)
  case (1 s old)
  show ?case
  proof (cases "old = []")
    case True
    have "concat (map (\<lambda>c. [c]) s) = s" by (induction s) auto
    then show ?thesis using True by (simp add: str_replace_empty_old)
  next
    case False
    note old = this
    show ?thesis
    proof (cases s)
      case Nil
      then show ?thesis using old by (simp add: str_replace_Nil)
    next
      case (Cons x xs)
      then have ne: "s \<noteq> []" by simp
      show ?thesis
      proof (cases "startswith s old")
        case True
        from "1.hyps"(1) [OF old ne True]
        have "length (str_replace (drop (length old) s) old []) \<le> length (drop (length old) s)" .
        then have "length (str_replace (drop (length old) s) old []) \<le> length s" by simp
        then show ?thesis by (simp only: str_replace_match [OF old ne True] append_Nil)
      next
        case False
        from "1.hyps"(2) [OF old ne False]
        have "length (str_replace (tl s) old []) \<le> length (tl s)" .
        then have "length (str_replace xs old []) \<le> length xs" by (simp add: Cons)
        moreover have "str_replace (x # xs) old [] = x # str_replace xs old []"
          using old False unfolding Cons by (rule str_replace_nomatch)
        ultimately show ?thesis by (simp add: Cons)
      qed
    qed
  qed
qed

lemma normpath_nonempty: "normpath p \<noteq> []"
  by (simp add: normpath_def Let_def)

lemma abspath_nonempty: "abspath env p \<noteq> []"
  by (simp add: abspath_def normpath_nonempty)

lemma strip_then_slice_shorter:
  assumes "a \<noteq> []"
  shows "drop 1 (str_replace a r []) \<noteq> a"
proof
  assume "drop 1 (str_replace a r []) = a"
  then have "length a = length (str_replace a r []) - 1" by (metis length_drop)
  with str_replace_length [of a r] assms show False by (cases a) auto
qed

text \<open>
  The comparison of line 171 is made after the slice \<^verbatim>\<open>[1:]\<close>: its left side is shorter
  than the absolute path on its right, so the exception of line 172 is never raised.
\<close>

lemma ReinterpretPathForChroot_never_outside:
  "ReinterpretPathForChroot env path \<noteq> Some (Inl (Exception m))"
proof (cases "FindRepoDir env (Some path)")
  case None
  then show ?thesis by (simp add: ReinterpretPathForChroot_def)
next
  case (Some found)
  show ?thesis
  proof (cases found)
    case None
    with Some show ?thesis by (simp add: ReinterpretPathForChroot_def)
  next
    case (Some repo_dir)
    with \<open>FindRepoDir env (Some path) = Some found\<close> show ?thesis
      using strip_then_slice_shorter [OF abspath_nonempty, of env path]
      by (simp add: ReinterpretPathForChroot_def Let_def split: option.split)
  qed
qed

text \<open>
  C2, at a path outside the detected source root. With the marker in \<^verbatim>\<open>/a\<close>, the walk
  from \<^verbatim>\<open>/a/b/../../c\<close> finds \<^verbatim>\<open>/a/b/../.repo\<close>; the root is \<^verbatim>\<open>/a\<close>, the path is
  \<^verbatim>\<open>/c\<close>, stripping the root from it changes nothing, and the function returns
  \<^verbatim>\<open>/home/u/trunk/c\<close> instead of raising.
\<close>

theorem ReinterpretPathForChroot_outside_tree:
  "FindRepoDir dotdot_example (Some ''/a/b/../../c'') = Some (Some ''/a/b/../.repo'')
   \<and> abspath dotdot_example (path_join ''/a/b/../.repo'' [''..'']) = ''/a''
   \<and> abspath dotdot_example ''/a/b/../../c'' = ''/c''
   \<and> str_replace ''/c'' ''/a'' [] = ''/c''
   \<and> ReinterpretPathForChroot dotdot_example ''/a/b/../../c'' = Some (Inr ''/home/u/trunk/c'')"
  by code_simp

text \<open>
  C10. When \<^verbatim>\<open>FindRepoDir(path)\<close> returns \<^verbatim>\<open>None\<close>, \<^verbatim>\<open>ReinterpretPathForChroot\<close> fails
  in \<^verbatim>\<open>os.path.join(None, '..')\<close> with an \<^verbatim>\<open>AttributeError\<close>, before it computes any
  path, and does not raise its own "path is outside your src tree" error.
\<close>

theorem ReinterpretPathForChroot_without_repo:
  assumes "FindRepoDir env (Some path) = Some None"
  shows "ReinterpretPathForChroot env path = Some (Inl AttributeError)
       \<and> ReinterpretPathForChroot env path \<noteq> Some (Inl (Exception outside_message))"
  using assms by (simp add: ReinterpretPathForChroot_def)

theorem ReinterpretPathForChroot_without_repo_witness:
  "FindRepoDir bare_example (Some ''/a/b'') = Some None
   \<and> ReinterpretPathForChroot bare_example ''/a/b'' = Some (Inl AttributeError)
   \<and> ReinterpretPathForChroot bare_example ''/a/b'' \<noteq> Some (Inl (Exception outside_message))"
proof -
  have h: "FindRepoDir bare_example (Some ''/a/b'') = Some None" by code_simp
  show ?thesis by (rule conjI [OF h ReinterpretPathForChroot_without_repo [OF h]])
qed

subsection \<open>Logging\<close>

lemma Info_not_Warning: "Info t m \<noteq> Warning t m'"
  by (cases t)
     (simp_all add: Info_def Warning_def Color_def BLUE_def YELLOW_def BOLD_def
        COLOR_START_def fmt_d_def)

lemma ESC_in_Color:
  "ESC \<in> set (Color \<lparr>enabled = t\<rparr> c text) \<longleftrightarrow> t \<or> ESC \<in> set text"
  by (simp add: Color_def RESET_def BOLD_START_def COLOR_START_def)

text \<open>
  C6, as the code has it. Whether \<^verbatim>\<open>Warning\<close>, \<^verbatim>\<open>Info\<close> and \<^verbatim>\<open>Die\<close> colour the line they
  print to the standard error stream is decided by \<^verbatim>\<open>_STDOUT_IS_TTY\<close>, computed once from
  the standard output stream: for a message without escape characters, the line holds an
  ANSI escape exactly when standard output has \<^verbatim>\<open>isatty\<close> and is a terminal, whatever
  the standard error stream is.
\<close>

theorem logging_colour_follows_stdout:
  assumes "ESC \<notin> set message"
  shows "(ESC \<in> set (Warning (STDOUT_IS_TTY io) message))
           = (stdout_has_isatty io \<and> stdout_isatty io)
       \<and> (ESC \<in> set (Info (STDOUT_IS_TTY io) message))
           = (stdout_has_isatty io \<and> stdout_isatty io)
       \<and> (ESC \<in> set (fst (Die (STDOUT_IS_TTY io) message)))
           = (stdout_has_isatty io \<and> stdout_isatty io)
       \<and> STDOUT_IS_TTY (io\<lparr>stderr_isatty := b\<rparr>) = STDOUT_IS_TTY io"
  using assms
  by (simp add: Warning_def Info_def Die_def ESC_in_Color STDOUT_IS_TTY_def)
     (simp add: ESC_def NL_def)

theorem logging_colour_follows_stdout_witness:
  "ESC \<notin> set ''disk full''
   \<and> ESC \<in> set (Warning (STDOUT_IS_TTY redirected_stderr_example) ''disk full'')
   \<and> ESC \<in> set (Info (STDOUT_IS_TTY redirected_stderr_example) ''disk full'')
   \<and> ESC \<in> set (fst (Die (STDOUT_IS_TTY redirected_stderr_example) ''disk full''))"
proof -
  have h: "ESC \<notin> set ''disk full''" by (simp add: ESC_def)
  from logging_colour_follows_stdout [OF h, of redirected_stderr_example] h
  show ?thesis by (simp add: redirected_stderr_example_def)
qed

text \<open>
  C6 as stated fails: with standard output on a terminal and standard error redirected,
  the warning line written to standard error carries the colour escapes.
\<close>

theorem logging_colour_stderr_counterexample:
  "\<not> stderr_isatty redirected_stderr_example
   \<and> Warning (STDOUT_IS_TTY redirected_stderr_example) ''disk full''
       = CHR 0x1B # ''[1;33m'' @ CHR 0x0A # ''WARNING: disk full'' @ CHR 0x1B # ''[0m'' @ [CHR 0x0A]
   \<and> ESC \<in> set (Warning (STDOUT_IS_TTY redirected_stderr_example) ''disk full'')"
  by (simp add: redirected_stderr_example_def STDOUT_IS_TTY_def Warning_def Color_def
        YELLOW_def BOLD_def COLOR_START_def RESET_def fmt_d_def ESC_def NL_def)

subsection \<open>\<^verbatim>\<open>RunCommand\<close>\<close>

lemma Warning_not_printed:
  "Warning t m \<notin> set (if p then [Info t m'] else [])"
  using Info_not_Warning [of t m' m] by auto

lemma RunCommand_child:
  assumes "popen_request a = Inr call" and "spawn env call (input a) = Inr ch"
  shows "RunCommand env a =
    (if exit_code a then Inr (RetCode (returncode ch))
     else if \<not> error_ok a \<and> returncode ch \<noteq> 0
     then Inl (Exception (''Command '' @ [DQUOTE] @ repr env (popen_args call) @ [DQUOTE]
                           @ '' failed.'' @ [NL]
                           @ first_truthy [error_message a, snd (communicate call ch),
                                           fst (communicate call ch)]))
     else Inr (RetOutput (fst (communicate call ch))),
     if print_cmd a
     then [Info (tty env)
             (''PROGRAM('' @ caller_name env @ '') -> RunCommand: ''
              @ repr env (popen_args call) @ '' in dir '' @ fmt_s (cwd a))]
     else [])"
  using assms by (simp add: RunCommand_def try_body_def Let_def case_prod_beta)

lemma RunCommand_spawn_error:
  assumes "popen_request a = Inr call" and "spawn env call (input a) = Inl m"
  shows "RunCommand env a =
    (if \<not> error_ok a then Inl (OSError m) else Inr (RetOutput (Some [])),
     (if print_cmd a
      then [Info (tty env)
              (''PROGRAM('' @ caller_name env @ '') -> RunCommand: ''
               @ repr env (popen_args call) @ '' in dir '' @ fmt_s (cwd a))]
      else [])
     @ (if \<not> error_ok a then [] else [Warning (tty env) m]))"
  using assms by (simp add: RunCommand_def try_body_def Let_def)

lemma popen_request_stdout:
  "popen_request a = Inr call \<Longrightarrow>
   popen_stdout call = (if redirect_stdout a then Some PIPE else None)"
  by (auto simp: popen_request_def Let_def split: if_splits cmd.splits)

lemma popen_request_error_ok: "popen_request (a\<lparr>error_ok := b\<rparr>) = popen_request a"
  by (cases "cmd a"; cases "enter_chroot a") (simp_all add: popen_request_def Let_def)

lemma popen_request_default:
  "popen_request (default_args c\<lparr>print_cmd := p, error_ok := e, exit_code := x,
                                  redirect_stdout := r\<rparr>)
   = Inr \<lparr>popen_args = c, popen_cwd = None, popen_stdin = None,
          popen_stdout = (if r then Some PIPE else None), popen_stderr = None\<rparr>"
  by (simp add: popen_request_def default_args_def truthy_def)

lemma RunCommand_request_error:
  "popen_request a = Inl e \<Longrightarrow> RunCommand env a = (Inl e, [])"
  by (simp add: RunCommand_def)

lemma RunCommand_warning_iff:
  "(\<exists>m. Warning (tty env) m \<in> set (snd (RunCommand env a)))
     = (error_ok a
        \<and> (\<exists>call m. popen_request a = Inr call \<and> spawn env call (input a) = Inl m))"
proof (cases "popen_request a")
  case (Inl e)
  then show ?thesis by (simp add: RunCommand_request_error)
next
  case (Inr call)
  show ?thesis
  proof (cases "spawn env call (input a)")
    case (Inl m)
    have "(\<exists>m'. Warning (tty env) m' \<in> set (snd (RunCommand env a))) = error_ok a"
      unfolding RunCommand_spawn_error [OF Inr Inl] snd_conv set_append
      using Warning_not_printed [of "tty env"] by auto
    then show ?thesis using Inr Inl by simp
  next
    case ran: (Inr ch)
    have "\<not> (\<exists>m. Warning (tty env) m \<in> set (snd (RunCommand env a)))"
      unfolding RunCommand_child [OF Inr ran] snd_conv
      using Warning_not_printed [of "tty env"] by blast
    then show ?thesis using Inr ran by simp
  qed
qed

lemma RunCommand_empty_output_iff:
  assumes "popen_request a = Inr call" and "\<not> exit_code a"
  shows "(fst (RunCommand env a) = Inr (RetOutput (Some [])))
     = ((\<exists>m. spawn env call (input a) = Inl m) \<and> error_ok a
        \<or> (\<exists>ch. spawn env call (input a) = Inr ch \<and> (error_ok a \<or> returncode ch = 0)
                \<and> redirect_stdout a \<and> child_stdout ch = []))"
proof (cases "spawn env call (input a)")
  case (Inl m)
  show ?thesis unfolding RunCommand_spawn_error [OF assms(1) Inl] using Inl by simp
next
  case (Inr ch)
  have "fst (communicate call ch) = (if redirect_stdout a then Some (child_stdout ch) else None)"
    using popen_request_stdout [OF assms(1)] by (simp add: communicate_def)
  then show ?thesis
    unfolding RunCommand_child [OF assms(1) Inr] using Inr assms(2) by auto
qed

text \<open>
  C3, as the code has it. When the child exits with a nonzero status and \<^verbatim>\<open>exit_code\<close>
  is not requested: with \<^verbatim>\<open>error_ok=True\<close> the call returns what \<^verbatim>\<open>communicate\<close> gave for
  standard output and prints no warning (the guard of line 67 never raises, so the
  handler that warns is not entered); with \<^verbatim>\<open>error_ok=False\<close> the same call raises the
  "Command ... failed" exception. For every call \<open>b\<close>, a warning is printed exactly when
  \<^verbatim>\<open>Popen\<close> or \<^verbatim>\<open>communicate\<close> itself raises and \<^verbatim>\<open>error_ok\<close> is set.
\<close>

theorem RunCommand_nonzero_exit:
  assumes "popen_request a = Inr call"
    and "spawn env call (input a) = Inr ch"
    and "returncode ch \<noteq> 0"
    and "\<not> exit_code a"
  shows "fst (RunCommand env (a\<lparr>error_ok := True\<rparr>))
           = Inr (RetOutput (if redirect_stdout a then Some (child_stdout ch) else None))
       \<and> (\<forall>m. Warning (tty env) m \<notin> set (snd (RunCommand env (a\<lparr>error_ok := True\<rparr>))))
       \<and> (\<exists>m. fst (RunCommand env (a\<lparr>error_ok := False\<rparr>)) = Inl (Exception m))
       \<and> ((\<exists>m. Warning (tty env) m \<in> set (snd (RunCommand env b)))
            = (error_ok b
               \<and> (\<exists>call' m. popen_request b = Inr call' \<and> spawn env call' (input b) = Inl m)))"
proof -
  have out: "fst (communicate call ch) = (if redirect_stdout a then Some (child_stdout ch) else None)"
    using popen_request_stdout [OF assms(1)] by (simp add: communicate_def)
  have ok: "popen_request (a\<lparr>error_ok := True\<rparr>) = Inr call"
    "spawn env call (input (a\<lparr>error_ok := True\<rparr>)) = Inr ch"
    and strict: "popen_request (a\<lparr>error_ok := False\<rparr>) = Inr call"
    "spawn env call (input (a\<lparr>error_ok := False\<rparr>)) = Inr ch"
    using assms(1,2) by (simp_all add: popen_request_error_ok)
  have quiet: "\<forall>m. Warning (tty env) m \<notin> set (snd (RunCommand env (a\<lparr>error_ok := True\<rparr>)))"
    unfolding RunCommand_child [OF ok] snd_conv by (intro allI Warning_not_printed)
  have returned: "fst (RunCommand env (a\<lparr>error_ok := True\<rparr>))
           = Inr (RetOutput (if redirect_stdout a then Some (child_stdout ch) else None))"
    unfolding RunCommand_child [OF ok] using assms(4) out by simp
  have raised: "\<exists>m. fst (RunCommand env (a\<lparr>error_ok := False\<rparr>)) = Inl (Exception m)"
    unfolding RunCommand_child [OF strict] using assms(3,4) by simp
  note only = RunCommand_warning_iff [of env b]
  from returned quiet raised only show ?thesis by (intro conjI)
qed

theorem RunCommand_nonzero_exit_witness:
  "popen_request (default_args (CmdList [''false''])\<lparr>print_cmd := False, error_ok := False,
        exit_code := False, redirect_stdout := False\<rparr>)
     = Inr \<lparr>popen_args = CmdList [''false''], popen_cwd = None, popen_stdin = None,
            popen_stdout = None, popen_stderr = None\<rparr>
   \<and> spawn echo_example \<lparr>popen_args = CmdList [''false''], popen_cwd = None, popen_stdin = None,
            popen_stdout = None, popen_stderr = None\<rparr> None
       = Inr \<lparr>returncode = 1, child_stdout = [], child_stderr = []\<rparr>
   \<and> fst (RunCommand echo_example (default_args (CmdList [''false''])\<lparr>print_cmd := False,
        error_ok := True, exit_code := False, redirect_stdout := False\<rparr>))
       = Inr (RetOutput None)
   \<and> (\<forall>m. Warning False m \<notin> set (snd (RunCommand echo_example
        (default_args (CmdList [''false''])\<lparr>print_cmd := False, error_ok := True,
           exit_code := False, redirect_stdout := False\<rparr>))))
   \<and> (\<exists>m. fst (RunCommand echo_example (default_args (CmdList [''false''])\<lparr>print_cmd := False,
        error_ok := False, exit_code := False, redirect_stdout := False\<rparr>))
       = Inl (Exception m))
   \<and> (\<exists>m. Warning False m \<in> set (snd (RunCommand echo_example
        (default_args (CmdList [''no-such-program''])\<lparr>print_cmd := False, error_ok := True,
           exit_code := False, redirect_stdout := False\<rparr>))))
   \<and> \<not> (\<exists>m. Warning False m \<in> set (snd (RunCommand echo_example
        (default_args (CmdList [''no-such-program''])\<lparr>print_cmd := False, error_ok := False,
           exit_code := False, redirect_stdout := False\<rparr>))))"
proof -
  let ?a = "default_args (CmdList [''false''])\<lparr>print_cmd := False, error_ok := False,
        exit_code := False, redirect_stdout := False\<rparr>"
  let ?b = "default_args (CmdList [''no-such-program''])\<lparr>print_cmd := False, error_ok := True,
        exit_code := False, redirect_stdout := False\<rparr>"
  let ?c = "default_args (CmdList [''no-such-program''])\<lparr>print_cmd := False, error_ok := False,
        exit_code := False, redirect_stdout := False\<rparr>"
  let ?call = "\<lparr>popen_args = CmdList [''false''], popen_cwd = None, popen_stdin = None,
            popen_stdout = None, popen_stderr = None\<rparr>"
  let ?nocall = "\<lparr>popen_args = CmdList [''no-such-program''], popen_cwd = None,
            popen_stdin = None, popen_stdout = None, popen_stderr = None\<rparr>"
  let ?ch = "\<lparr>returncode = 1, child_stdout = [], child_stderr = []\<rparr>"
  have req: "popen_request ?a = Inr ?call" by (simp add: popen_request_default)
  have run: "spawn echo_example ?call (input ?a) = Inr ?ch"
    by (simp add: echo_example_def default_args_def)
  have rc: "returncode ?ch \<noteq> 0" and ec: "\<not> exit_code ?a" by simp_all
  have t: "tty echo_example = False" by (simp add: echo_example_def)
  have breq: "popen_request ?b = Inr ?nocall" by (simp add: popen_request_default)
  have brun: "spawn echo_example ?nocall (input ?b) = Inl ''[Errno 2] No such file or directory''"
    by (simp add: echo_example_def default_args_def)
  have bok: "error_ok ?b" and cok: "\<not> error_ok ?c" by simp_all
  from breq brun bok have warned: "error_ok ?b
      \<and> (\<exists>call' m. popen_request ?b = Inr call' \<and> spawn echo_example call' (input ?b) = Inl m)"
    by blast
  have 1: "\<exists>m. Warning False m \<in> set (snd (RunCommand echo_example ?b))"
    using RunCommand_nonzero_exit [OF req run rc ec, of ?b] warned unfolding t by blast
  have 2: "\<not> (\<exists>m. Warning False m \<in> set (snd (RunCommand echo_example ?c)))"
    using RunCommand_nonzero_exit [OF req run rc ec, of ?c] cok unfolding t by blast
  have 3: "fst (RunCommand echo_example (?a\<lparr>error_ok := True\<rparr>)) = Inr (RetOutput None)
      \<and> (\<forall>m. Warning False m \<notin> set (snd (RunCommand echo_example (?a\<lparr>error_ok := True\<rparr>))))
      \<and> (\<exists>m. fst (RunCommand echo_example (?a\<lparr>error_ok := False\<rparr>)) = Inl (Exception m))"
    using RunCommand_nonzero_exit [OF req run rc ec, of ?b] unfolding t by simp
  have run': "spawn echo_example ?call None = Inr ?ch" using run by (simp add: default_args_def)
  from 1 2 3 req run' show ?thesis by (simp add: default_args_def)
qed

text \<open>
  C3 as stated fails: \<^verbatim>\<open>RunCommand(['false'], print_cmd=False, error_ok=True)\<close> returns
  and writes nothing at all to standard error, so no warning is emitted.
\<close>

theorem RunCommand_no_warning_counterexample:
  "RunCommand echo_example (default_args (CmdList [''false''])\<lparr>print_cmd := False,
        error_ok := True, exit_code := False, redirect_stdout := False\<rparr>)
     = (Inr (RetOutput None), [])"
proof -
  let ?a = "default_args (CmdList [''false''])\<lparr>print_cmd := False, error_ok := True,
        exit_code := False, redirect_stdout := False\<rparr>"
  let ?call = "\<lparr>popen_args = CmdList [''false''], popen_cwd = None, popen_stdin = None,
            popen_stdout = None, popen_stderr = None\<rparr>"
  let ?ch = "\<lparr>returncode = 1, child_stdout = [], child_stderr = []\<rparr>"
  have req: "popen_request ?a = Inr ?call" by (simp add: popen_request_default)
  have run: "spawn echo_example ?call (input ?a) = Inr ?ch"
    by (simp add: echo_example_def default_args_def)
  show ?thesis unfolding RunCommand_child [OF req run] by (simp add: communicate_def)
qed

text \<open>
  C4, as the code has it. With \<^verbatim>\<open>exit_code\<close> not requested: when the child ran and no
  exception is raised (it exited with status 0, or \<^verbatim>\<open>error_ok\<close> is set), the call returns
  the captured standard output if \<^verbatim>\<open>redirect_stdout\<close> is set and \<^verbatim>\<open>None\<close> if it is not;
  when starting the child raised and \<^verbatim>\<open>error_ok\<close> is set, the call warns and returns
  the empty string. So the empty string is returned exactly in two cases: such a failure
  was suppressed, or standard output was captured and the child wrote nothing.
\<close>

theorem RunCommand_output:
  assumes "popen_request a = Inr call" and "\<not> exit_code a"
  shows "(spawn env call (input a) = Inr ch \<and> (error_ok a \<or> returncode ch = 0) \<longrightarrow>
            fst (RunCommand env a)
              = Inr (RetOutput (if redirect_stdout a then Some (child_stdout ch) else None)))
       \<and> (spawn env call (input a) = Inl m \<and> error_ok a \<longrightarrow>
            fst (RunCommand env a) = Inr (RetOutput (Some []))
            \<and> Warning (tty env) m \<in> set (snd (RunCommand env a)))
       \<and> (fst (RunCommand env a) = Inr (RetOutput (Some [])))
           = ((\<exists>m. spawn env call (input a) = Inl m) \<and> error_ok a
              \<or> (\<exists>ch. spawn env call (input a) = Inr ch \<and> (error_ok a \<or> returncode ch = 0)
                      \<and> redirect_stdout a \<and> child_stdout ch = []))"
proof (intro conjI impI)
  assume run: "spawn env call (input a) = Inr ch \<and> (error_ok a \<or> returncode ch = 0)"
  then have "spawn env call (input a) = Inr ch" by simp
  note unfolded = RunCommand_child [OF assms(1) this]
  have "fst (communicate call ch) = (if redirect_stdout a then Some (child_stdout ch) else None)"
    using popen_request_stdout [OF assms(1)] by (simp add: communicate_def)
  then show "fst (RunCommand env a)
      = Inr (RetOutput (if redirect_stdout a then Some (child_stdout ch) else None))"
    unfolding unfolded using run assms(2) by auto
next
  assume "spawn env call (input a) = Inl m \<and> error_ok a"
  then have run: "spawn env call (input a) = Inl m" and ok: "error_ok a" by simp_all
  show "fst (RunCommand env a) = Inr (RetOutput (Some []))"
    unfolding RunCommand_spawn_error [OF assms(1) run] using ok by simp
  show "Warning (tty env) m \<in> set (snd (RunCommand env a))"
    unfolding RunCommand_spawn_error [OF assms(1) run] using ok by simp
next
  show "(fst (RunCommand env a) = Inr (RetOutput (Some [])))
           = ((\<exists>m. spawn env call (input a) = Inl m) \<and> error_ok a
              \<or> (\<exists>ch. spawn env call (input a) = Inr ch \<and> (error_ok a \<or> returncode ch = 0)
                      \<and> redirect_stdout a \<and> child_stdout ch = []))"
    using assms by (rule RunCommand_empty_output_iff)
qed

theorem RunCommand_output_witness:
  "fst (RunCommand echo_example (default_args (CmdList [''echo'', ''hi''])\<lparr>print_cmd := True,
        error_ok := False, exit_code := False, redirect_stdout := True\<rparr>))
     = Inr (RetOutput (Some (''hi'' @ [NL])))
   \<and> fst (RunCommand echo_example (default_args (CmdList [''no-such-program''])\<lparr>print_cmd := True,
        error_ok := True, exit_code := False, redirect_stdout := True\<rparr>))
     = Inr (RetOutput (Some []))
   \<and> Warning False ''[Errno 2] No such file or directory''
       \<in> set (snd (RunCommand echo_example (default_args (CmdList [''no-such-program''])\<lparr>
             print_cmd := True, error_ok := True, exit_code := False, redirect_stdout := True\<rparr>)))
   \<and> fst (RunCommand echo_example (default_args (CmdList [''true''])\<lparr>print_cmd := True,
        error_ok := False, exit_code := False, redirect_stdout := True\<rparr>))
     = Inr (RetOutput (Some []))
   \<and> fst (RunCommand echo_example (default_args (CmdList [''true''])\<lparr>print_cmd := True,
        error_ok := False, exit_code := False, redirect_stdout := False\<rparr>))
     = Inr (RetOutput None)"
proof -
  let ?a = "default_args (CmdList [''echo'', ''hi''])\<lparr>print_cmd := True,
        error_ok := False, exit_code := False, redirect_stdout := True\<rparr>"
  let ?b = "default_args (CmdList [''no-such-program''])\<lparr>print_cmd := True,
        error_ok := True, exit_code := False, redirect_stdout := True\<rparr>"
  let ?c = "default_args (CmdList [''true''])\<lparr>print_cmd := True,
        error_ok := False, exit_code := False, redirect_stdout := True\<rparr>"
  let ?d = "default_args (CmdList [''true''])\<lparr>print_cmd := True,
        error_ok := False, exit_code := False, redirect_stdout := False\<rparr>"
  let ?ch = "\<lparr>returncode = 0, child_stdout = ''hi'' @ [NL], child_stderr = []\<rparr>"
  let ?quiet = "\<lparr>returncode = 0, child_stdout = [], child_stderr = []\<rparr>"
  have a: "popen_request ?a = Inr \<lparr>popen_args = CmdList [''echo'', ''hi''], popen_cwd = None,
      popen_stdin = None, popen_stdout = Some PIPE, popen_stderr = None\<rparr>"
    and b: "popen_request ?b = Inr \<lparr>popen_args = CmdList [''no-such-program''], popen_cwd = None,
      popen_stdin = None, popen_stdout = Some PIPE, popen_stderr = None\<rparr>"
    and c: "popen_request ?c = Inr \<lparr>popen_args = CmdList [''true''], popen_cwd = None,
      popen_stdin = None, popen_stdout = Some PIPE, popen_stderr = None\<rparr>"
    and d: "popen_request ?d = Inr \<lparr>popen_args = CmdList [''true''], popen_cwd = None,
      popen_stdin = None, popen_stdout = None, popen_stderr = None\<rparr>"
    by (simp_all add: popen_request_default)
  have ea: "\<not> exit_code ?a" and eb: "\<not> exit_code ?b" and ec: "\<not> exit_code ?c"
    and ed: "\<not> exit_code ?d" by simp_all
  have ra: "spawn echo_example \<lparr>popen_args = CmdList [''echo'', ''hi''], popen_cwd = None,
      popen_stdin = None, popen_stdout = Some PIPE, popen_stderr = None\<rparr> (input ?a) = Inr ?ch
      \<and> (error_ok ?a \<or> returncode ?ch = 0)"
    by (simp add: echo_example_def)
  have rb: "spawn echo_example \<lparr>popen_args = CmdList [''no-such-program''], popen_cwd = None,
      popen_stdin = None, popen_stdout = Some PIPE, popen_stderr = None\<rparr> (input ?b)
      = Inl ''[Errno 2] No such file or directory'' \<and> error_ok ?b"
    by (simp add: echo_example_def)
  have rc: "\<exists>ch. spawn echo_example \<lparr>popen_args = CmdList [''true''], popen_cwd = None,
      popen_stdin = None, popen_stdout = Some PIPE, popen_stderr = None\<rparr> (input ?c) = Inr ch
      \<and> (error_ok ?c \<or> returncode ch = 0) \<and> redirect_stdout ?c \<and> child_stdout ch = []"
    by (simp add: echo_example_def)
  have rd: "spawn echo_example \<lparr>popen_args = CmdList [''true''], popen_cwd = None,
      popen_stdin = None, popen_stdout = None, popen_stderr = None\<rparr> (input ?d) = Inr ?quiet
      \<and> (error_ok ?d \<or> returncode ?quiet = 0)"
    by (simp add: echo_example_def)
  from RunCommand_output [OF a ea, of echo_example ?ch] ra
  have 1: "fst (RunCommand echo_example ?a) = Inr (RetOutput (Some (''hi'' @ [NL])))" by simp
  from RunCommand_output [OF b eb, of echo_example _ "''[Errno 2] No such file or directory''"] rb
  have 2: "fst (RunCommand echo_example ?b) = Inr (RetOutput (Some []))
      \<and> Warning (tty echo_example) ''[Errno 2] No such file or directory''
          \<in> set (snd (RunCommand echo_example ?b))"
    by blast
  from RunCommand_output [OF c ec, of echo_example] rc
  have 3: "fst (RunCommand echo_example ?c) = Inr (RetOutput (Some []))" by blast
  from RunCommand_output [OF d ed, of echo_example ?quiet] rd
  have 4: "fst (RunCommand echo_example ?d) = Inr (RetOutput None)" by simp
  have "tty echo_example = False" by (simp add: echo_example_def)
  with 1 2 3 4 show ?thesis by simp
qed

text \<open>
  C4 as stated fails: without \<^verbatim>\<open>redirect_stdout\<close>, \<^verbatim>\<open>RunCommand(['true'])\<close> returns
  \<^verbatim>\<open>None\<close>, which \<^verbatim>\<open>communicate\<close> assigned to \<^verbatim>\<open>output\<close>, not the empty string.
\<close>

theorem RunCommand_uncaptured_output_counterexample:
  "RunCommand echo_example (default_args (CmdList [''true''])\<lparr>print_cmd := False,
        error_ok := False, exit_code := False, redirect_stdout := False\<rparr>)
     = (Inr (RetOutput None), [])
   \<and> RetOutput None \<noteq> RetOutput (Some [])"
proof -
  let ?a = "default_args (CmdList [''true''])\<lparr>print_cmd := False, error_ok := False,
        exit_code := False, redirect_stdout := False\<rparr>"
  let ?call = "\<lparr>popen_args = CmdList [''true''], popen_cwd = None, popen_stdin = None,
            popen_stdout = None, popen_stderr = None\<rparr>"
  let ?ch = "\<lparr>returncode = 0, child_stdout = [], child_stderr = []\<rparr>"
  have req: "popen_request ?a = Inr ?call" by (simp add: popen_request_default)
  have run: "spawn echo_example ?call (input ?a) = Inr ?ch"
    by (simp add: echo_example_def default_args_def)
  show ?thesis unfolding RunCommand_child [OF req run] by (simp add: communicate_def)
qed

text \<open>
  C8. When the child ran and \<^verbatim>\<open>exit_code=True\<close>, \<^verbatim>\<open>RunCommand\<close> returns the child's
  exit status, zero or not and whatever \<^verbatim>\<open>error_ok\<close> is, raises nothing and prints no
  warning: line 65 returns before the check of line 67.
\<close>

theorem RunCommand_exit_code:
  assumes "popen_request a = Inr call"
    and "spawn env call (input a) = Inr ch"
    and "exit_code a"
  shows "fst (RunCommand env a) = Inr (RetCode (returncode ch))
       \<and> (\<forall>m. Warning (tty env) m \<notin> set (snd (RunCommand env a)))"
proof -
  have "\<forall>m. Warning (tty env) m \<notin> set (snd (RunCommand env a))"
    unfolding RunCommand_child [OF assms(1,2)] snd_conv by (intro allI Warning_not_printed)
  moreover have "fst (RunCommand env a) = Inr (RetCode (returncode ch))"
    unfolding RunCommand_child [OF assms(1,2)] using assms(3) by simp
  ultimately show ?thesis by simp
qed

theorem RunCommand_exit_code_witness:
  "exit_code (default_args (CmdList [''false''])\<lparr>print_cmd := True, error_ok := False,
        exit_code := True, redirect_stdout := False\<rparr>)
   \<and> fst (RunCommand echo_example (default_args (CmdList [''false''])\<lparr>print_cmd := True,
        error_ok := False, exit_code := True, redirect_stdout := False\<rparr>))
       = Inr (RetCode 1)
   \<and> fst (RunCommand echo_example (default_args (CmdList [''true''])\<lparr>print_cmd := True,
        error_ok := False, exit_code := True, redirect_stdout := False\<rparr>))
       = Inr (RetCode 0)"
proof -
  let ?a = "default_args (CmdList [''false''])\<lparr>print_cmd := True, error_ok := False,
        exit_code := True, redirect_stdout := False\<rparr>"
  let ?b = "default_args (CmdList [''true''])\<lparr>print_cmd := True, error_ok := False,
        exit_code := True, redirect_stdout := False\<rparr>"
  have a: "popen_request ?a = Inr \<lparr>popen_args = CmdList [''false''], popen_cwd = None,
      popen_stdin = None, popen_stdout = None, popen_stderr = None\<rparr>"
    and b: "popen_request ?b = Inr \<lparr>popen_args = CmdList [''true''], popen_cwd = None,
      popen_stdin = None, popen_stdout = None, popen_stderr = None\<rparr>"
    by (simp_all add: popen_request_default)
  have ra: "spawn echo_example \<lparr>popen_args = CmdList [''false''], popen_cwd = None,
      popen_stdin = None, popen_stdout = None, popen_stderr = None\<rparr> (input ?a)
      = Inr \<lparr>returncode = 1, child_stdout = [], child_stderr = []\<rparr>"
    and rb: "spawn echo_example \<lparr>popen_args = CmdList [''true''], popen_cwd = None,
      popen_stdin = None, popen_stdout = None, popen_stderr = None\<rparr> (input ?b)
      = Inr \<lparr>returncode = 0, child_stdout = [], child_stderr = []\<rparr>"
    by (simp_all add: echo_example_def)
  have e: "exit_code ?a" "exit_code ?b" by simp_all
  from RunCommand_exit_code [OF a ra e(1)] RunCommand_exit_code [OF b rb e(2)] e(1)
  show ?thesis by simp
qed

text \<open>
  C5, at a string command. \<^verbatim>\<open>RunCommand('echo hi')\<close> passes the string \<^verbatim>\<open>'echo hi'\<close> to
  \<^verbatim>\<open>subprocess.Popen\<close> as it is; where \<^verbatim>\<open>['echo', 'hi']\<close> runs, the unsplit string names
  no program and \<^verbatim>\<open>Popen\<close> raises. With \<^verbatim>\<open>enter_chroot\<close> the string is added to a list,
  a \<^verbatim>\<open>TypeError\<close>.
\<close>

theorem RunCommand_string_cmd_not_split:
  "popen_request (default_args (CmdStr ''echo hi''))
     = Inr \<lparr>popen_args = CmdStr ''echo hi'', popen_cwd = None, popen_stdin = None,
            popen_stdout = None, popen_stderr = None\<rparr>
   \<and> CmdStr ''echo hi'' \<noteq> CmdList [''echo'', ''hi'']
   \<and> fst (RunCommand echo_example (default_args (CmdStr ''echo hi'')))
       = Inl (OSError ''[Errno 2] No such file or directory'')
   \<and> fst (RunCommand echo_example (default_args (CmdList [''echo'', ''hi''])))
       = Inr (RetOutput None)
   \<and> RunCommand echo_example (default_args (CmdStr ''echo hi'')\<lparr>enter_chroot := True\<rparr>)
       = (Inl TypeError, [])"
  by (simp add: RunCommand_def try_body_def popen_request_def default_args_def truthy_def
        echo_example_def communicate_def)

end
